theory Spec2Isabelle
  imports Complex_Main "HOL-Library.Log_Nat"
begin

section \<open>The Levenspiel branch of streamlit_app.py\<close>

text \<open>
  The third branch of the script (lines 63 to 111) reads a two-row table of conversions
  \<open>X\<close> and rates \<open>-rA\<close>, interpolates the rate at the intermediate conversion to size
  a CSTR, and integrates \<open>1 / -rA\<close> over the table rows between the intermediate and
  the final conversion to size a PFR. The script has no functions of its own; the three
  operations below carry the names the specification gives to lines 91, 92 and 94 to 104.

  Numbers. The script computes with IEEE binary64 values. A finite binary64 value is
  modelled as the real number it denotes. The interpolation of line 91 rounds every
  arithmetic operation to binary64 (\<open>round64\<close> below), since its result is compared with
  the stored rates. The quotient of line 92 and the trapezoid sum of line 100 are kept as
  exact expressions of their operands: the statements about them say which formula the
  script evaluates. Overflow and the literals \<open>inf\<close> and \<open>nan\<close> in the input are
  outside the model. What is kept is the one place where NumPy leaves the finite numbers
  on finite input: a division by zero, which NumPy answers with \<open>inf\<close>, \<open>-inf\<close> or
  \<open>nan\<close> (and a RuntimeWarning), never with an exception.
\<close>

subsection \<open>Values and errors\<close>

text \<open>
  \<open>NonFinite\<close> stands for any of \<open>inf\<close>, \<open>-inf\<close>, \<open>nan\<close>. Addition, multiplication and
  halving, the only operations the script applies to such a value, give a non-finite
  value again, so one absorbing constructor is enough.
\<close>

datatype npfloat = Fin real | NonFinite

text \<open>
  \<open>ValueError\<close> is what \<open>pd.DataFrame\<close> raises on columns of different lengths and what
  \<open>np.interp\<close> raises on an empty array of sample points. \<open>InsufficientDataError\<close> is
  the \<open>else\<close> branch of lines 103 and 104: no PFR volume is computed and the warning
  "Check interpolation range and rate data." is shown instead.
\<close>

datatype error = ValueError | InsufficientDataError

subsection \<open>Rounding to binary64\<close>

text \<open>
  Round to nearest, ties to even, with 53 significant bits and gradual underflow: a
  nonzero \<open>x\<close> with \<open>2 ^ e \<le> \<bar>x\<bar> < 2 ^ (e + 1)\<close> is rounded to a multiple of
  \<open>2 ^ (e - 52)\<close>, and to a multiple of \<open>2 ^ (- 1074)\<close> below the normal range. This is
  also what \<open>float\<close> does to a decimal literal. Overflow is not modelled.
\<close>

definition round_half_even :: "real \<Rightarrow> int" where
  "round_half_even q =
     (let n = \<lfloor>q\<rfloor>; r = q - of_int n
      in if r < 1 / 2 then n else if r > 1 / 2 then n + 1 else if even n then n else n + 1)"

text \<open>The exponent \<open>e\<close> with \<open>2 ^ e \<le> \<bar>x\<bar> < 2 ^ (e + 1)\<close>, for \<open>x\<close> other than zero.\<close>

definition binade :: "real \<Rightarrow> int" where
  "binade x =
     (if \<bar>x\<bar> \<ge> 1 then bitlen \<lfloor>\<bar>x\<bar>\<rfloor> - 1 else - bitlen (\<lceil>1 / \<bar>x\<bar>\<rceil> - 1))"

definition min_exponent :: int where
  "min_exponent = - 1074"

definition round64 :: "real \<Rightarrow> real" where
  "round64 x =
     (if x = 0 then 0
      else let e = max (binade x - 52) min_exponent
           in of_int (round_half_even (x / 2 powi e)) * 2 powi e)"

definition fl_add :: "real \<Rightarrow> real \<Rightarrow> real" where
  "fl_add a b = round64 (a + b)"

definition fl_sub :: "real \<Rightarrow> real \<Rightarrow> real" where
  "fl_sub a b = round64 (a - b)"

definition fl_mul :: "real \<Rightarrow> real \<Rightarrow> real" where
  "fl_mul a b = round64 (a * b)"

definition fl_div :: "real \<Rightarrow> real \<Rightarrow> real" where
  "fl_div a b = round64 (a / b)"

subsection \<open>The rate table (lines 78 to 85)\<close>

text \<open>
  A data frame with the two columns \<open>X\<close> and \<open>-rA\<close> is a list of rows. The model starts
  from the two sequences \<open>X_vals\<close> and \<open>rA_vals\<close> of line 80 and 81; splitting the text
  and \<open>float\<close> are not modelled.
\<close>

type_synonym df = "(real \<times> real) list"

definition DataFrame :: "real list \<Rightarrow> real list \<Rightarrow> error + df" where
  "DataFrame X_vals rA_vals =
     (if length X_vals = length rA_vals then Inr (zip X_vals rA_vals) else Inl ValueError)"

definition fallback_df :: df where
  "fallback_df = [(0, 1 / 1000)]"

text \<open>The \<open>try\<close> of line 78 with its handler: any exception selects the one-row table.\<close>

definition rate_table :: "real list \<Rightarrow> real list \<Rightarrow> df" where
  "rate_table X_vals rA_vals =
     (case DataFrame X_vals rA_vals of Inr d \<Rightarrow> d | Inl e \<Rightarrow> fallback_df)"

subsection \<open>Interpolation (line 91)\<close>

text \<open>
  \<open>np.interp\<close> is NumPy code. The definition follows its implementation for one query
  point: the position of the key among the sample points is found first, with the two
  sentinels \<open>-1\<close> (\<open>BelowRange\<close>) and \<open>len\<close> (\<open>AboveRange\<close>), and the value is then read off or
  interpolated. NumPy scans linearly up to four sample points and bisects above that;
  on an increasing array both give the last index whose sample point is at most the key
  (lemma \<open>search_bracket_unique\<close> below), and the scan is what is modelled. NumPy
  documents the result on an array that is not increasing as meaningless.

  Between two sample points NumPy evaluates
  \<open>slope = (dy[j+1] - dy[j]) / (dx[j+1] - dx[j])\<close> and \<open>slope * (x - dx[j]) + dy[j]\<close> in
  binary64, one rounding for each of the six operations (no fused multiply-add).
\<close>

datatype position = BelowRange | AboveRange | At nat

definition binary_search :: "real \<Rightarrow> real list \<Rightarrow> position" where
  "binary_search key arr =
     (if key > last arr then AboveRange
      else if key < hd arr then BelowRange
      else At (length (takeWhile (\<lambda>a. key \<ge> a) (tl arr))))"

definition np_interp :: "real \<Rightarrow> real list \<Rightarrow> real list \<Rightarrow> error + real" where
  "np_interp x xp fp =
     (let lenxp = length xp in
      if lenxp = 0 then Inl ValueError
      else if length fp \<noteq> lenxp then Inl ValueError
      else
        let lval = fp ! 0; rval = fp ! (lenxp - 1) in
        if lenxp = 1 then
          Inr (if x < xp ! 0 then lval else if x > xp ! 0 then rval else fp ! 0)
        else
          (case binary_search x xp of
             BelowRange \<Rightarrow> Inr lval
           | AboveRange \<Rightarrow> Inr rval
           | At j \<Rightarrow>
               if j = lenxp - 1 then Inr (fp ! j)
               else if xp ! j = x then Inr (fp ! j)
               else
                 let slope = fl_div (fl_sub (fp ! (j + 1)) (fp ! j))
                               (fl_sub (xp ! (j + 1)) (xp ! j))
                 in Inr (fl_add (fl_mul slope (fl_sub x (xp ! j))) (fp ! j))))"

definition interpolate_rate :: "df \<Rightarrow> real \<Rightarrow> error + real" where
  "interpolate_rate d X = np_interp X (map fst d) (map snd d)"

subsection \<open>CSTR volume (line 92)\<close>

text \<open>
  \<open>r_interp\<close> is a NumPy scalar, so the division of line 92 is NumPy's: a zero divisor
  gives a non-finite value.
\<close>

definition np_div :: "real \<Rightarrow> real \<Rightarrow> npfloat" where
  "np_div a b = (if b = 0 then NonFinite else Fin (a / b))"

definition cstr_volume :: "real \<Rightarrow> real \<Rightarrow> real \<Rightarrow> npfloat" where
  "cstr_volume FA0 X_int rate_at_X_int = np_div (FA0 * X_int) rate_at_X_int"

subsection \<open>PFR volume (lines 94 to 104)\<close>

fun nf_add :: "npfloat \<Rightarrow> npfloat \<Rightarrow> npfloat" where
  "nf_add (Fin a) (Fin b) = Fin (a + b)"
| "nf_add _ _ = NonFinite"

fun nf_mul :: "npfloat \<Rightarrow> npfloat \<Rightarrow> npfloat" where
  "nf_mul (Fin a) (Fin b) = Fin (a * b)"
| "nf_mul _ _ = NonFinite"

fun nf_half :: "npfloat \<Rightarrow> npfloat" where
  "nf_half (Fin a) = Fin (a / 2)"
| "nf_half NonFinite = NonFinite"

fun nf_sum :: "npfloat list \<Rightarrow> npfloat" where
  "nf_sum [] = Fin 0"
| "nf_sum (v # vs) = nf_add v (nf_sum vs)"

fun np_diff :: "real list \<Rightarrow> real list" where
  "np_diff (a # b # xs) = (b - a) # np_diff (b # xs)"
| "np_diff _ = []"

text \<open>
  \<open>np.trapz(y, x)\<close> is \<open>(d * (y[1:] + y[:-1]) / 2.0).sum()\<close> with \<open>d = diff(x)\<close>.
\<close>

definition np_trapz :: "npfloat list \<Rightarrow> real list \<Rightarrow> npfloat" where
  "np_trapz y x =
     (let d = np_diff x
      in nf_sum (map2 (\<lambda>di s. nf_half (nf_mul (Fin di) s)) d (map2 nf_add (tl y) (butlast y))))"

text \<open>Indexing an array with a Boolean mask keeps the entries where the mask is true.\<close>

definition select :: "bool list \<Rightarrow> 'a list \<Rightarrow> 'a list" where
  "select mask_arr arr = map snd (filter fst (zip mask_arr arr))"

definition pfr_volume :: "df \<Rightarrow> real \<Rightarrow> real \<Rightarrow> real \<Rightarrow> error + npfloat" where
  "pfr_volume d FA0 X_int X_final =
     (let X_array = map fst d;
          r_array = map snd d;
          mask_arr = map (\<lambda>x. x \<ge> X_int \<and> x \<le> X_final) X_array;
          X_sub = select mask_arr X_array;
          r_sub = select mask_arr r_array
      in if length X_sub > 1
         then Inr (nf_mul (Fin FA0) (np_trapz (map (np_div 1) r_sub) X_sub))
         else Inl InsufficientDataError)"

subsection \<open>The specification's wording of the PFR integral\<close>

text \<open>
  The specification describes the PFR volume through the samples whose \<open>X\<close> lies in
  \<open>[X_int, X_final]\<close> and through the trapezoid sum over points \<open>(x0, y0) ... (xn, yn)\<close>.
  These two definitions follow that wording; they are compared with \<open>pfr_volume\<close> below.
\<close>

definition selected_samples :: "df \<Rightarrow> real \<Rightarrow> real \<Rightarrow> df" where
  "selected_samples d X_int X_final = filter (\<lambda>(x, r). X_int \<le> x \<and> x \<le> X_final) d"

definition spec_trapezoid :: "(real \<times> real) list \<Rightarrow> real" where
  "spec_trapezoid pts =
     (\<Sum>i<length pts - 1. (fst (pts ! (i + 1)) - fst (pts ! i)) * (snd (pts ! i) + snd (pts ! (i + 1))) / 2)"

subsection \<open>The interpolant between two samples\<close>



text \<open>
  Every finite binary64 value is a whole multiple of the smallest subnormal number,
  \<open>2 ^ (- 1074)\<close>.
\<close>

definition on_grid :: "real \<Rightarrow> bool" where
  "on_grid x = (of_int \<lfloor>x / 2 powi min_exponent\<rfloor> = x / 2 powi min_exponent)"

subsection \<open>Tables used in the examples\<close>

definition scenario_df :: df where
  "scenario_df = [(0, 1 / 100), (1 / 2, 5 / 1000), (1, 25 / 10000)]"

definition padded_df :: df where
  "padded_df = [(- 1, 5), (1 / 2, 5 / 1000), (1, 25 / 10000), (2, 7)]"




section \<open>Selection by mask and the trapezoid sum\<close>

text \<open>
  The two masked columns are the columns of the selected rows, and on finite ordinates
  \<open>np_trapz\<close> is the indexed trapezoid sum.
\<close>

lemma select_map: "select (map p d) (map f d) = map f (filter p d)"
  by (induction d) (simp_all add: select_def)

lemma X_sub_selected:
  "select (map (\<lambda>x. x \<ge> a \<and> x \<le> b) (map fst d)) (map fst d) = map fst (selected_samples d a b)"
proof -
  have "map (\<lambda>x. x \<ge> a \<and> x \<le> b) (map fst d) = map (\<lambda>(x, r). a \<le> x \<and> x \<le> b) d"
    by (simp add: case_prod_beta)
  then show ?thesis
    by (simp only: selected_samples_def select_map)
qed

lemma r_sub_selected:
  "select (map (\<lambda>x. x \<ge> a \<and> x \<le> b) (map fst d)) (map snd d) = map snd (selected_samples d a b)"
proof -
  have "map (\<lambda>x. x \<ge> a \<and> x \<le> b) (map fst d) = map (\<lambda>(x, r). a \<le> x \<and> x \<le> b) d"
    by (simp add: case_prod_beta)
  then show ?thesis
    by (simp only: selected_samples_def select_map)
qed

lemma pfr_volume_selected:
  "pfr_volume d FA0 a b =
     (if length (selected_samples d a b) > 1
      then Inr (nf_mul (Fin FA0)
             (np_trapz (map (np_div 1) (map snd (selected_samples d a b)))
                (map fst (selected_samples d a b))))
      else Inl InsufficientDataError)"
  unfolding pfr_volume_def Let_def X_sub_selected r_sub_selected by simp

lemma np_trapz_Fin:
  "length ys = length xs \<Longrightarrow>
   np_trapz (map Fin ys) xs =
     Fin (\<Sum>i<length xs - 1. (xs ! (i + 1) - xs ! i) * (ys ! i + ys ! (i + 1)) / 2)"
proof (induction xs arbitrary: ys rule: np_diff.induct)
  case (1 a b xs)
  then obtain y0 y1 ys' where ys: "ys = y0 # y1 # ys'"
    by (metis length_Suc_conv)
  with 1 have len: "length (y1 # ys') = length (b # xs)" by simp
  have ih: "np_trapz (map Fin (y1 # ys')) (b # xs) =
     Fin (\<Sum>i<length (b # xs) - 1. ((b # xs) ! (i + 1) - (b # xs) ! i) * ((y1 # ys') ! i + (y1 # ys') ! (i + 1)) / 2)"
    using 1(1)[OF len] .
  have step: "np_trapz (map Fin ys) (a # b # xs) =
      nf_add (Fin ((b - a) * (y1 + y0) / 2)) (np_trapz (map Fin (y1 # ys')) (b # xs))"
    by (simp add: np_trapz_def ys)
  have shift: "(\<Sum>i<Suc (length xs). g i) = g 0 + (\<Sum>i<length xs. g (Suc i))" for g :: "nat \<Rightarrow> real"
    by (rule sum.lessThan_Suc_shift)
  show ?case
    unfolding step ih
    by (simp add: ys shift algebra_simps del: sum.lessThan_Suc)
qed (simp_all add: np_trapz_def)

lemma map_np_div_Fin:
  "\<forall>r \<in> set rs. r \<noteq> 0 \<Longrightarrow> map (np_div 1) rs = map Fin (map (\<lambda>r. 1 / r) rs)"
  by (induction rs) (simp_all add: np_div_def)

lemma pfr_volume_finite:
  assumes "2 \<le> length (selected_samples d a b)"
      and "\<forall>r \<in> set (map snd (selected_samples d a b)). r \<noteq> 0"
  shows "pfr_volume d FA0 a b =
     Inr (Fin (FA0 * spec_trapezoid (map (\<lambda>(x, r). (x, 1 / r)) (selected_samples d a b))))"
proof -
  let ?s = "selected_samples d a b"
  have "np_trapz (map (np_div 1) (map snd ?s)) (map fst ?s) =
        np_trapz (map Fin (map (\<lambda>r. 1 / r) (map snd ?s))) (map fst ?s)"
    by (simp only: map_np_div_Fin[OF assms(2)])
  also have "\<dots> = Fin (\<Sum>i<length (map fst ?s) - 1.
       (map fst ?s ! (i + 1) - map fst ?s ! i) *
       (map (\<lambda>r. 1 / r) (map snd ?s) ! i + map (\<lambda>r. 1 / r) (map snd ?s) ! (i + 1)) / 2)"
    by (rule np_trapz_Fin) simp
  also have "\<dots> = Fin (spec_trapezoid (map (\<lambda>(x, r). (x, 1 / r)) ?s))"
    unfolding spec_trapezoid_def
    by (auto intro!: sum.cong simp: case_prod_beta)
  finally show ?thesis
    using assms(1) by (simp add: pfr_volume_selected)
qed

section \<open>The position found by the search\<close>

text \<open>
  A key between the first and the last sample point is bracketed by the position the
  scan returns; on a strictly increasing array the bracket is unique, so any search
  that returns a bracketing index returns this one.
\<close>

lemma search_in_range:
  assumes "arr \<noteq> []" "hd arr \<le> key" "key \<le> last arr"
  shows "\<exists>j. binary_search key arr = At j \<and> j < length arr \<and> arr ! j \<le> key
           \<and> (j = length arr - 1 \<or> key < arr ! (j + 1))"
proof -
  obtain a t where arr: "arr = a # t" using assms(1) by (cases arr) auto
  let ?j = "length (takeWhile (\<lambda>a. key \<ge> a) t)"
  have bs: "binary_search key arr = At ?j"
    using assms by (simp add: binary_search_def arr)
  have jle: "?j \<le> length t" by (rule length_takeWhile_le)
  have low: "arr ! ?j \<le> key"
  proof (cases ?j)
    case 0
    then show ?thesis using assms(2) arr by simp
  next
    case (Suc k)
    then have "k < ?j" by simp
    then have "takeWhile (\<lambda>a. key \<ge> a) t ! k \<in> set (takeWhile (\<lambda>a. key \<ge> a) t)"
      by (rule nth_mem)
    then have "takeWhile (\<lambda>a. key \<ge> a) t ! k \<le> key"
      by (auto dest: set_takeWhileD)
    moreover have "takeWhile (\<lambda>a. key \<ge> a) t ! k = t ! k"
      using \<open>k < ?j\<close> by (rule takeWhile_nth)
    ultimately show ?thesis using Suc arr by simp
  qed
  have up: "?j = length arr - 1 \<or> key < arr ! (?j + 1)"
  proof (cases "?j < length t")
    case True
    then have "\<not> key \<ge> t ! ?j" by (rule nth_length_takeWhile)
    then show ?thesis using arr by simp
  next
    case False
    with jle show ?thesis using arr by simp
  qed
  from bs jle low up show ?thesis using arr by auto
qed

lemma strict_hd_le_nth:
  "sorted_wrt (<) (xs :: real list) \<Longrightarrow> i < length xs \<Longrightarrow> hd xs \<le> xs ! i"
  by (cases xs) (auto simp: nth_Cons' intro: less_imp_le)

lemma strict_nth_le_last:
  "sorted_wrt (<) (xs :: real list) \<Longrightarrow> i < length xs \<Longrightarrow> xs ! i \<le> last xs"
proof -
  assume s: "sorted_wrt (<) xs" and i: "i < length xs"
  then have ne: "xs \<noteq> []" by auto
  show ?thesis
  proof (cases "i = length xs - 1")
    case True
    then show ?thesis using ne by (simp add: last_conv_nth)
  next
    case False
    with i have "i < length xs - 1" by simp
    then have "xs ! i < xs ! (length xs - 1)"
      using sorted_wrt_nth_less[OF s, of i "length xs - 1"] i by simp
    then show ?thesis using ne by (simp add: last_conv_nth)
  qed
qed

lemma search_bracket_unique:
  assumes "sorted_wrt (<) (arr :: real list)" "j < length arr" "arr ! j \<le> key"
      and "j = length arr - 1 \<or> key < arr ! (j + 1)"
      and "k < length arr" "arr ! k \<le> key"
      and "k = length arr - 1 \<or> key < arr ! (k + 1)"
  shows "j = k"
proof -
  have a: "j \<le> k"
  proof (cases "k = length arr - 1")
    case True
    then show ?thesis using assms(2) by simp
  next
    case False
    then have "key < arr ! (k + 1)" and "k + 1 < length arr" using assms(5,7) by auto
    then have "arr ! j < arr ! (k + 1)" using assms(3) by simp
    then have "j < k + 1"
      using assms(1,2) \<open>k + 1 < length arr\<close>
      by (metis linorder_not_less order_less_imp_le sorted_wrt_nth_less order_less_le)
    then show ?thesis by simp
  qed
  have b: "k \<le> j"
  proof (cases "j = length arr - 1")
    case True
    then show ?thesis using assms(5) by simp
  next
    case False
    then have "key < arr ! (j + 1)" and "j + 1 < length arr" using assms(2,4) by auto
    then have "arr ! k < arr ! (j + 1)" using assms(6) by simp
    then have "k < j + 1"
      using assms(1,5) \<open>j + 1 < length arr\<close>
      by (metis linorder_not_less order_less_imp_le sorted_wrt_nth_less order_less_le)
    then show ?thesis by simp
  qed
  from a b show ?thesis by simp
qed

lemma search_at_sample:
  assumes "sorted_wrt (<) (arr :: real list)" "i < length arr"
  shows "binary_search (arr ! i) arr = At i"
proof -
  have ne: "arr \<noteq> []" using assms(2) by auto
  obtain j where j: "binary_search (arr ! i) arr = At j" "j < length arr" "arr ! j \<le> arr ! i"
      "j = length arr - 1 \<or> arr ! i < arr ! (j + 1)"
    using search_in_range[OF ne strict_hd_le_nth[OF assms] strict_nth_le_last[OF assms]] by blast
  have "i = length arr - 1 \<or> arr ! i < arr ! (i + 1)"
  proof (cases "i = length arr - 1")
    case False
    then have "i + 1 < length arr" using assms(2) by simp
    then have "arr ! i < arr ! (i + 1)"
      using sorted_wrt_nth_less[OF assms(1), of i "i + 1"] by simp
    then show ?thesis ..
  qed simp
  then have "j = i"
    using search_bracket_unique[OF assms(1) j(2,3,4) assms(2)] by simp
  with j(1) show ?thesis by simp
qed

lemma binary_search_cases:
  assumes "arr \<noteq> []"
  obtains (above) "key > last arr" "binary_search key arr = AboveRange"
  | (below) "key < hd arr" "binary_search key arr = BelowRange"
  | (inside) j where "binary_search key arr = At j" "j < length arr" "arr ! j \<le> key"
      "j = length arr - 1 \<or> key < arr ! (j + 1)"
proof (cases "key > last arr")
  case True
  then show ?thesis using above by (simp add: binary_search_def)
next
  case False
  show ?thesis
  proof (cases "key < hd arr")
    case True
    then show ?thesis using below \<open>\<not> key > last arr\<close> by (simp add: binary_search_def)
  next
    case nb: False
    from search_in_range[OF assms, of key] False nb
    obtain j where "binary_search key arr = At j" "j < length arr" "arr ! j \<le> key"
      "j = length arr - 1 \<or> key < arr ! (j + 1)" by auto
    then show ?thesis by (rule inside)
  qed
qed

lemma np_interp_long:
  assumes "2 \<le> length xp" "length fp = length xp"
  shows "np_interp x xp fp =
     (case binary_search x xp of
        BelowRange \<Rightarrow> Inr (fp ! 0)
      | AboveRange \<Rightarrow> Inr (fp ! (length xp - 1))
      | At j \<Rightarrow>
          if j = length xp - 1 then Inr (fp ! j)
          else if xp ! j = x then Inr (fp ! j)
          else Inr (fl_add (fl_mul (fl_div (fl_sub (fp ! (j + 1)) (fp ! j))
                                      (fl_sub (xp ! (j + 1)) (xp ! j)))
                              (fl_sub x (xp ! j)))
                      (fp ! j)))"
  using assms by (auto simp add: np_interp_def Let_def split: position.split)




section \<open>Properties of the rounding\<close>

text \<open>
  \<open>binade\<close> finds the power of two at or below the magnitude of its argument, the
  rounded value is a multiple of the smallest subnormal number, and the difference of two
  distinct binary64 values does not round to zero.
\<close>

lemma bitlen_pos: "0 < n \<Longrightarrow> 1 \<le> bitlen n"
  using bitlen_eq_zero_iff[of n] bitlen_nonneg[of n] by linarith

lemma binade_bounds:
  assumes "x \<noteq> 0"
  shows "2 powi binade x \<le> \<bar>x\<bar>" and "\<bar>x\<bar> < 2 powi (binade x + 1)"
proof -
  have "2 powi binade x \<le> \<bar>x\<bar> \<and> \<bar>x\<bar> < 2 powi (binade x + 1)"
  proof (cases "\<bar>x\<bar> \<ge> 1")
    case True
    define n where "n = \<lfloor>\<bar>x\<bar>\<rfloor>"
    have n1: "1 \<le> n" unfolding n_def using True by simp
    then have n0: "0 < n" by simp
    have b: "binade x = bitlen n - 1" using True by (simp add: binade_def n_def)
    have bl: "1 \<le> bitlen n" using n0 by (rule bitlen_pos)
    from bitlen_bounds[OF n0] have lo: "2 ^ nat (bitlen n - 1) \<le> n" and hi: "n < 2 ^ nat (bitlen n)"
      by simp_all
    have "(2::real) powi (bitlen n - 1) = 2 ^ nat (bitlen n - 1)"
      using bl by (simp add: power_int_def)
    also have "\<dots> = of_int (2 ^ nat (bitlen n - 1))" by simp
    also have "\<dots> \<le> of_int n" using lo by (simp only: of_int_le_iff)
    also have "\<dots> \<le> \<bar>x\<bar>" unfolding n_def by simp
    finally have l: "2 powi binade x \<le> \<bar>x\<bar>" unfolding b .
    have "\<bar>x\<bar> < of_int (n + 1)" unfolding n_def by linarith
    also have "\<dots> \<le> of_int (2 ^ nat (bitlen n))"
      using hi by (simp only: of_int_le_iff)
    also have "\<dots> = (2::real) ^ nat (bitlen n)" by simp
    also have "\<dots> = 2 powi (bitlen n - 1 + 1)"
      using bl by (simp add: power_int_def)
    finally have "\<bar>x\<bar> < 2 powi (binade x + 1)" unfolding b .
    with l show ?thesis ..
  next
    case False
    define y where "y = 1 / \<bar>x\<bar>"
    define m where "m = \<lceil>y\<rceil> - 1"
    define k where "k = bitlen m"
    have ax: "0 < \<bar>x\<bar>" "\<bar>x\<bar> < 1" using assms False by simp_all
    then have y1: "1 < y" unfolding y_def by simp
    then have "2 \<le> \<lceil>y\<rceil>" by linarith
    then have m0: "0 < m" unfolding m_def by simp
    have my: "of_int m < y" "y \<le> of_int m + 1" unfolding m_def by linarith+
    have b: "binade x = - k" using False by (simp add: binade_def k_def m_def y_def)
    have k1: "1 \<le> k" unfolding k_def using m0 by (rule bitlen_pos)
    from bitlen_bounds[OF m0] have lo: "2 ^ nat (k - 1) \<le> m" and hi: "m < 2 ^ nat k"
      unfolding k_def by simp_all
    have "y \<le> of_int (m + 1)" using my(2) by simp
    also have "\<dots> \<le> of_int (2 ^ nat k)" using hi by (simp only: of_int_le_iff)
    finally have yk: "y \<le> 2 ^ nat k" by simp
    have "(2::real) ^ nat (k - 1) = of_int (2 ^ nat (k - 1))" by simp
    also have "\<dots> \<le> of_int m" using lo by (simp only: of_int_le_iff)
    also have "\<dots> < y" by (rule my(1))
    finally have ky: "2 ^ nat (k - 1) < y" .
    have xy: "\<bar>x\<bar> = 1 / y" unfolding y_def by simp
    have ypos: "0 < y" using y1 by simp
    have "(2::real) powi (- k) = 1 / 2 ^ nat k"
      using k1 by (simp add: power_int_def field_simps)
    also have "\<dots> \<le> 1 / y" using yk ypos by (simp add: frac_le)
    finally have l: "2 powi binade x \<le> \<bar>x\<bar>" unfolding b xy .
    have "1 / y < 1 / 2 ^ nat (k - 1)" using ky by (simp add: frac_less2)
    also have "\<dots> = (2::real) powi (- k + 1)"
    proof (cases "k = 1")
      case True
      then show ?thesis by simp
    next
      case False
      with k1 have "- k + 1 < 0" by simp
      moreover have "nat (k - 1) = nat (- (- k + 1))" by simp
      ultimately show ?thesis by (simp add: power_int_def field_simps)
    qed
    finally have "\<bar>x\<bar> < 2 powi (binade x + 1)" unfolding b xy .
    with l show ?thesis ..
  qed
  then show "2 powi binade x \<le> \<bar>x\<bar>" and "\<bar>x\<bar> < 2 powi (binade x + 1)" by simp_all
qed

lemma round_half_even_ge_floor: "\<lfloor>q\<rfloor> \<le> round_half_even q"
  by (simp add: round_half_even_def Let_def)

lemma round64_pos:
  assumes "2 powi min_exponent \<le> x"
  shows "0 < round64 x"
proof -
  have p: "(0::real) < 2 powi n" for n :: int by simp
  have x0: "0 < x" using assms p[of min_exponent] by linarith
  define e where "e = max (binade x - 52) min_exponent"
  have "2 powi e \<le> x"
  proof (cases "binade x - 52 \<le> min_exponent")
    case True
    then show ?thesis using assms by (simp add: e_def max_def)
  next
    case False
    then have e: "e = binade x - 52" by (simp add: e_def max_def)
    have "(2::real) powi e \<le> 2 powi binade x"
      unfolding e by (rule power_int_increasing) simp_all
    also have "\<dots> \<le> x" using binade_bounds(1)[of x] x0 by simp
    finally show ?thesis .
  qed
  then have "1 \<le> x / 2 powi e" using p[of e] by (simp add: field_simps)
  then have "1 \<le> \<lfloor>x / 2 powi e\<rfloor>" by linarith
  then have "1 \<le> round_half_even (x / 2 powi e)"
    using round_half_even_ge_floor[of "x / 2 powi e"] by linarith
  then have "0 < real_of_int (round_half_even (x / 2 powi e)) * 2 powi e"
    using p[of e] by simp
  then show ?thesis using x0 by (simp add: round64_def e_def Let_def)
qed

lemma on_gridE:
  assumes "on_grid x"
  obtains n :: int where "x = of_int n * 2 powi min_exponent"
proof -
  have "of_int \<lfloor>x / 2 powi min_exponent\<rfloor> * 2 powi min_exponent
        = x / 2 powi min_exponent * 2 powi min_exponent"
    by (simp only: assms[unfolded on_grid_def])
  also have "\<dots> = x" by simp
  finally have "x = of_int \<lfloor>x / 2 powi min_exponent\<rfloor> * 2 powi min_exponent" by simp
  then show ?thesis by (rule that)
qed

lemma round64_on_grid: "on_grid (round64 x)"
proof (cases "x = 0")
  case True
  then show ?thesis by (simp add: round64_def on_grid_def)
next
  case False
  define e where "e = max (binade x - 52) min_exponent"
  define n where "n = round_half_even (x / 2 powi e)"
  have r: "round64 x = of_int n * 2 powi e"
    using False by (simp add: round64_def e_def n_def Let_def)
  have ge: "0 \<le> e - min_exponent" unfolding e_def by simp
  have "(2::real) powi e / 2 powi min_exponent = 2 powi (e - min_exponent)"
    by (simp add: power_int_diff)
  also have "\<dots> = 2 ^ nat (e - min_exponent)" using ge by (simp add: power_int_def)
  finally have q: "(2::real) powi e / 2 powi min_exponent = 2 ^ nat (e - min_exponent)" .
  have "round64 x / 2 powi min_exponent = of_int n * (2 powi e / 2 powi min_exponent)"
    unfolding r by simp
  also have "\<dots> = of_int n * 2 ^ nat (e - min_exponent)" unfolding q ..
  also have "\<dots> = of_int (n * 2 ^ nat (e - min_exponent))" by simp
  finally show ?thesis unfolding on_grid_def by (simp only: floor_of_int)
qed

lemma fl_sub_pos:
  assumes "on_grid a" and "on_grid b" and "a < b"
  shows "0 < fl_sub b a"
proof -
  obtain na where a: "a = of_int na * 2 powi min_exponent" using assms(1) by (rule on_gridE)
  obtain nb where b: "b = of_int nb * 2 powi min_exponent" using assms(2) by (rule on_gridE)
  have g: "(0::real) < 2 powi min_exponent" by simp
  have "na < nb" using assms(3) g unfolding a b by simp
  then have "1 \<le> nb - na" by simp
  then have "(1::real) \<le> of_int (nb - na)" by (simp only: of_int_1_le_iff)
  then have "1 * (2::real) powi min_exponent \<le> of_int (nb - na) * 2 powi min_exponent"
    using g by (intro mult_right_mono) simp_all
  also have "\<dots> = b - a" unfolding a b by (simp add: algebra_simps)
  finally have "2 powi min_exponent \<le> b - a" by simp
  then show ?thesis unfolding fl_sub_def by (rule round64_pos)
qed

text \<open>
  In the interpolating branch the key lies between two different sample points, so on
  binary64 sample points the slope of \<open>np_interp\<close> never divides by zero.
\<close>

lemma np_interp_slope_defined:
  assumes "arr \<noteq> []" and "binary_search key arr = At j" and "j \<noteq> length arr - 1"
      and "list_all on_grid arr"
  shows "arr ! j \<le> key \<and> key < arr ! (j + 1) \<and> 0 < fl_sub (arr ! (j + 1)) (arr ! j)"
proof -
  from assms(1) have br: "j + 1 < length arr \<and> arr ! j \<le> key \<and> key < arr ! (j + 1)"
  proof (cases rule: binary_search_cases[where key = key])
    case above
    with assms(2) show ?thesis by simp
  next
    case below
    with assms(2) show ?thesis by simp
  next
    case (inside k)
    with assms(2,3) show ?thesis by auto
  qed
  then have "on_grid (arr ! j)" and "on_grid (arr ! (j + 1))"
    using assms(4) by (simp_all add: list_all_length)
  moreover have "arr ! j < arr ! (j + 1)" using br by linarith
  ultimately have "0 < fl_sub (arr ! (j + 1)) (arr ! j)" by (intro fl_sub_pos)
  with br show ?thesis by simp
qed

section \<open>Linear interpolation stays between its end values\<close>



section \<open>Evaluating the selection on the example table\<close>

lemma scenario_selected_all:
  "selected_samples scenario_df 0 1 = scenario_df"
  by (simp add: selected_samples_def scenario_df_def)

lemma scenario_selected_point:
  "selected_samples scenario_df (1 / 2) (1 / 2) = [(1 / 2, 5 / 1000)]"
  by (simp add: selected_samples_def scenario_df_def)

section \<open>Evaluating the rounding on the example tables\<close>







section \<open>The PFR volume\<close>

text \<open>
  C1. For every table of at least two samples with strictly increasing X values and
  positive rates, when at least two samples lie in \<open>[X_int, X_final]\<close>, \<open>pfr_volume\<close>
  equals FA0 times the trapezoid sum over the selected samples, the sum of
  \<open>(x (i+1) - x i) * (y i + y (i+1)) / 2\<close> with \<open>y i = 1 / rate i\<close>, where the selected
  samples are exactly the table samples whose X lies in \<open>[X_int, X_final]\<close> inclusive.
\<close>

theorem pfr_volume_trapezoid:
  assumes "2 \<le> length d"
      and "sorted_wrt (<) (map fst d)"
      and "\<forall>r \<in> set (map snd d). 0 < r"
      and "2 \<le> length (selected_samples d X_int X_final)"
  shows "pfr_volume d FA0 X_int X_final =
     Inr (Fin (FA0 * spec_trapezoid (map (\<lambda>(x, r). (x, 1 / r)) (selected_samples d X_int X_final))))"
proof -
  have "\<forall>r \<in> set (map snd (selected_samples d X_int X_final)). r \<noteq> 0"
    using assms(3) by (fastforce simp: selected_samples_def)
  with assms(4) show ?thesis by (rule pfr_volume_finite)
qed

theorem pfr_volume_trapezoid_witness:
  "2 \<le> length scenario_df \<and> sorted_wrt (<) (map fst scenario_df)
   \<and> list_all (\<lambda>r. 0 < r) (map snd scenario_df)
   \<and> 2 \<le> length (selected_samples scenario_df 0 1)
   \<and> pfr_volume scenario_df 2 0 1 = Inr (Fin 450)"
proof -
  have h1: "2 \<le> length scenario_df" by (simp add: scenario_df_def)
  have h2: "sorted_wrt (<) (map fst scenario_df)" by (simp add: scenario_df_def)
  have h3: "\<forall>r \<in> set (map snd scenario_df). 0 < r" by (simp add: scenario_df_def)
  have h4: "2 \<le> length (selected_samples scenario_df 0 1)"
    unfolding scenario_selected_all by (simp add: scenario_df_def)
  have tr: "spec_trapezoid (map (\<lambda>(x, r). (x, 1 / r)) scenario_df) = 225"
    by (simp add: spec_trapezoid_def scenario_df_def lessThan_Suc numeral_2_eq_2)
  from pfr_volume_trapezoid[OF h1 h2 h3 h4, of 2]
  have "pfr_volume scenario_df 2 0 1 = Inr (Fin 450)"
    by (simp add: scenario_selected_all tr)
  moreover have "list_all (\<lambda>r. 0 < r) (map snd scenario_df)"
    by (simp add: scenario_df_def)
  ultimately show ?thesis using h1 h2 h4 by blast
qed

text \<open>
  C2. On the table X = [0.0, 0.5, 1.0], rA = [0.01, 0.005, 0.0025] with FA0 = 1.0,
  X_int = 0.5 and X_final = 1.0, the interpolated rate at 0.5 is 0.005, the CSTR volume
  is 100 and the PFR volume is 150.
\<close>

theorem scenario_volumes:
  "rate_table [0, 1 / 2, 1] [1 / 100, 5 / 1000, 25 / 10000] = scenario_df
   \<and> interpolate_rate scenario_df (1 / 2) = Inr (5 / 1000)
   \<and> cstr_volume 1 (1 / 2) (5 / 1000) = Fin 100
   \<and> pfr_volume scenario_df 1 (1 / 2) 1 = Inr (Fin 150)"
  by (simp add: rate_table_def DataFrame_def scenario_df_def interpolate_rate_def
      np_interp_def binary_search_def cstr_volume_def np_div_def pfr_volume_def
      select_def np_trapz_def)

section \<open>The CSTR volume\<close>

text \<open>
  C3, as the code has it. Line 92 never fails: for every rate other than zero, negative
  rates included, \<open>cstr_volume\<close> returns \<open>FA0 * X_int / rate_at_X_int\<close>, and for the
  rate zero it returns a non-finite value.
\<close>

theorem cstr_volume_value:
  "(rate_at_X_int \<noteq> 0 \<longrightarrow> cstr_volume FA0 X_int rate_at_X_int = Fin (FA0 * X_int / rate_at_X_int))
   \<and> cstr_volume FA0 X_int 0 = NonFinite"
  by (simp add: cstr_volume_def np_div_def)

theorem cstr_volume_value_witness:
  "(1 / 200 :: real) \<noteq> 0 \<and> cstr_volume 1 (1 / 2) (1 / 200) = Fin 100"
  using cstr_volume_value[of "1 / 200" 1 "1 / 2"] by simp

text \<open>
  C3 as stated asks for a failure whenever the rate is zero or negative. At the rate
  \<open>-1\<close> the code returns the finite volume \<open>-0.5\<close>, and at the rate \<open>0\<close> it returns a
  non-finite value; neither is a failure.
\<close>

theorem cstr_volume_nonpositive_rate_counterexample:
  "(- 1 :: real) \<le> 0 \<and> cstr_volume 1 (1 / 2) (- 1) = Fin (- (1 / 2))
   \<and> (0 :: real) \<le> 0 \<and> cstr_volume 1 (1 / 2) 0 = NonFinite"
  by (simp add: cstr_volume_def np_div_def)

section \<open>Too few samples in the range\<close>

text \<open>
  C4. For every table and every range \<open>[X_int, X_final]\<close>, if fewer than two table samples
  have X in the range (in particular when \<open>X_int = X_final\<close> and at most one sample
  survives the filter), \<open>pfr_volume\<close> fails with \<open>InsufficientDataError\<close> and produces
  no volume.
\<close>

theorem pfr_volume_insufficient:
  "length (selected_samples d X_int X_final) < 2 \<Longrightarrow>
   pfr_volume d FA0 X_int X_final = Inl InsufficientDataError"
  by (simp add: pfr_volume_selected)

theorem pfr_volume_insufficient_witness:
  "length (selected_samples scenario_df (1 / 2) (1 / 2)) < 2
   \<and> pfr_volume scenario_df 1 (1 / 2) (1 / 2) = Inl InsufficientDataError"
proof -
  have h: "length (selected_samples scenario_df (1 / 2) (1 / 2)) < 2"
    by (simp add: scenario_selected_point)
  from h pfr_volume_insufficient[OF h, of 1] show ?thesis by blast
qed

section \<open>Tables of fewer than two samples\<close>

text \<open>
  C5, as the code has it. On a table of fewer than two samples \<open>interpolate_rate\<close> fails
  only when the table is empty (NumPy's ValueError); on a table of one sample it returns
  that sample's rate for every X. The one-row table is the script's own substitute for
  input that does not parse, and line 91 interpolates on it.
\<close>

theorem interpolate_rate_short_table:
  "length d < 2 \<Longrightarrow>
   interpolate_rate d X = (case d of [] \<Rightarrow> Inl ValueError | row # rest \<Rightarrow> Inr (snd row))"
  by (cases d) (auto simp: interpolate_rate_def np_interp_def)

theorem interpolate_rate_short_table_witness:
  "length fallback_df < 2 \<and> interpolate_rate fallback_df (3 / 10) = Inr (1 / 1000)
   \<and> length ([] :: df) < 2 \<and> interpolate_rate [] (3 / 10) = Inl ValueError"
proof -
  have h1: "length fallback_df < 2" by (simp add: fallback_df_def)
  have h2: "length ([] :: df) < 2" by simp
  have a: "interpolate_rate fallback_df (3 / 10) = Inr (1 / 1000)"
    using interpolate_rate_short_table[OF h1, of "3 / 10"] by (simp add: fallback_df_def)
  have b: "interpolate_rate [] (3 / 10) = Inl ValueError"
    using interpolate_rate_short_table[OF h2, of "3 / 10"] by simp
  from h1 h2 a b show ?thesis by blast
qed

text \<open>
  C5 as stated asks for a failure on every table of fewer than two samples. On the table
  of the single sample \<open>(0.0, 0.001)\<close> the code returns the rate \<open>0.001\<close> at \<open>X = 0.3\<close>.
\<close>

theorem interpolate_rate_one_sample_counterexample:
  "length [(0 :: real, 1 / 1000 :: real)] < 2
   \<and> interpolate_rate [(0, 1 / 1000)] (3 / 10) = Inr (1 / 1000)"
  by (simp add: interpolate_rate_def np_interp_def)

section \<open>Constructing the table\<close>

text \<open>
  C6, as the code has it. Construction checks nothing about the X values: two sequences
  of equal length are accepted and stored as they are, in the order given, so the stored
  X values are exactly the input X values, duplicates and all.
\<close>

theorem rate_table_stores_input:
  "length X_vals = length rA_vals \<Longrightarrow>
   DataFrame X_vals rA_vals = Inr (rate_table X_vals rA_vals)
   \<and> map fst (rate_table X_vals rA_vals) = X_vals
   \<and> map snd (rate_table X_vals rA_vals) = rA_vals"
  by (simp add: rate_table_def DataFrame_def)

theorem rate_table_stores_input_witness:
  "length [0, 1 / 2, 1 :: real] = length [1 / 100, 5 / 1000, 25 / 10000 :: real]
   \<and> DataFrame [0, 1 / 2, 1] [1 / 100, 5 / 1000, 25 / 10000] = Inr scenario_df
   \<and> map fst scenario_df = [0, 1 / 2, 1]"
proof -
  have h: "length [0, 1 / 2, 1 :: real] = length [1 / 100, 5 / 1000, 25 / 10000 :: real]"
    by simp
  have t: "rate_table [0, 1 / 2, 1] [1 / 100, 5 / 1000, 25 / 10000] = scenario_df"
    by (simp add: rate_table_def DataFrame_def scenario_df_def)
  from rate_table_stores_input[OF h] h show ?thesis
    unfolding t by blast
qed

text \<open>
  C6 as stated asks construction to reject duplicate X values and to store strictly
  increasing X values only. The X sequence \<open>[0.5, 0.5]\<close> is accepted and stored, and the
  stored X values are not strictly increasing.
\<close>

theorem rate_table_duplicate_X_counterexample:
  "\<not> distinct [1 / 2, 1 / 2 :: real]
   \<and> DataFrame [1 / 2, 1 / 2] [1 / 100, 2 / 100] = Inr [(1 / 2, 1 / 100), (1 / 2, 2 / 100)]
   \<and> rate_table [1 / 2, 1 / 2] [1 / 100, 2 / 100] = [(1 / 2, 1 / 100), (1 / 2, 2 / 100)]
   \<and> \<not> sorted_wrt (<) (map fst (rate_table [1 / 2, 1 / 2] [1 / 100, 2 / 100]))"
proof -
  have t: "rate_table [1 / 2, 1 / 2] [1 / 100, 2 / 100] = [(1 / 2, 1 / 100), (1 / 2, 2 / 100)]"
    by (simp add: rate_table_def DataFrame_def)
  have "\<not> sorted_wrt (<) [x, x]" for x :: real by simp
  then have "\<not> sorted_wrt (<) [1 / 2, 1 / 2 :: real]" .
  then have "\<not> sorted_wrt (<) (map fst (rate_table [1 / 2, 1 / 2] [1 / 100, 2 / 100]))"
    unfolding t by (simp only: list.map fst_conv simp_thms)
  moreover have "\<not> distinct [1 / 2, 1 / 2 :: real]" by simp
  moreover have "DataFrame [1 / 2, 1 / 2] [1 / 100, 2 / 100] = Inr [(1 / 2, 1 / 100), (1 / 2, 2 / 100)]"
    by (simp add: DataFrame_def)
  ultimately show ?thesis using t by blast
qed

section \<open>Interpolation\<close>

text \<open>
  C7. For every table with at least two strictly increasing X samples, \<open>interpolate_rate\<close>
  at an X below the smallest table X returns the first sample's rate, and at an X above
  the largest table X returns the last sample's rate.
\<close>

theorem interpolate_rate_clamps:
  assumes "2 \<le> length d" and "sorted_wrt (<) (map fst d)"
  shows "(X < Min (set (map fst d)) \<longrightarrow> interpolate_rate d X = Inr (snd (hd d)))
       \<and> (X > Max (set (map fst d)) \<longrightarrow> interpolate_rate d X = Inr (snd (last d)))"
proof -
  let ?xp = "map fst d" and ?fp = "map snd d"
  have ne: "d \<noteq> []" and nx: "?xp \<noteq> []" using assms(1) by auto
  have len: "2 \<le> length ?xp" using assms(1) by simp
  have hd_in: "hd ?xp \<in> set ?xp" and last_in: "last ?xp \<in> set ?xp"
    using nx by (simp_all del: set_map)
  have fp0: "?fp ! 0 = snd (hd d)" using ne by (simp add: hd_conv_nth)
  have fpn: "?fp ! (length ?xp - 1) = snd (last d)" using ne by (simp add: last_conv_nth)
  have lo: "interpolate_rate d X = Inr (snd (hd d))" if "X < Min (set ?xp)"
  proof -
    have "X < hd ?xp" and "X < last ?xp"
      using that hd_in last_in by (meson List.finite_set Min_le less_le_trans)+
    then have "binary_search X ?xp = BelowRange" by (simp add: binary_search_def)
    then show ?thesis
      by (simp add: interpolate_rate_def np_interp_long[OF len] fp0)
  qed
  have hi: "interpolate_rate d X = Inr (snd (last d))" if "X > Max (set ?xp)"
  proof -
    have "last ?xp < X"
      using that last_in by (meson List.finite_set Max_ge le_less_trans)
    then have "binary_search X ?xp = AboveRange" by (simp add: binary_search_def)
    then show ?thesis
      using fpn by (simp add: interpolate_rate_def np_interp_long[OF len])
  qed
  from lo hi show ?thesis by blast
qed

theorem interpolate_rate_clamps_witness:
  "2 \<le> length scenario_df \<and> sorted_wrt (<) (map fst scenario_df)
   \<and> - 1 < Min (set (map fst scenario_df)) \<and> 2 > Max (set (map fst scenario_df))
   \<and> interpolate_rate scenario_df (- 1) = Inr (1 / 100)
   \<and> interpolate_rate scenario_df 2 = Inr (25 / 10000)"
proof -
  have h1: "2 \<le> length scenario_df" by (simp add: scenario_df_def)
  have h2: "sorted_wrt (<) (map fst scenario_df)" by (simp add: scenario_df_def)
  have lo: "- 1 < Min (set (map fst scenario_df))" by (simp add: scenario_df_def)
  have hi: "2 > Max (set (map fst scenario_df))" by (simp add: scenario_df_def)
  have "interpolate_rate scenario_df (- 1) = Inr (snd (hd scenario_df))"
    using interpolate_rate_clamps[OF h1 h2, of "- 1"] lo by blast
  then have a: "interpolate_rate scenario_df (- 1) = Inr (1 / 100)"
    by (simp add: scenario_df_def)
  have "interpolate_rate scenario_df 2 = Inr (snd (last scenario_df))"
    using interpolate_rate_clamps[OF h1 h2, of 2] hi by blast
  then have b: "interpolate_rate scenario_df 2 = Inr (25 / 10000)"
    by (simp add: scenario_df_def)
  from h1 h2 lo hi a b show ?thesis by blast
qed

text \<open>
  C8. For every table with strictly increasing X values and every index \<open>i\<close>,
  \<open>interpolate_rate\<close> at the table's \<open>i\<close>-th X value returns exactly the \<open>i\<close>-th stored
  rate.
\<close>

theorem interpolate_rate_at_sample:
  assumes "sorted_wrt (<) (map fst d)" and "i < length d"
  shows "interpolate_rate d (fst (d ! i)) = Inr (snd (d ! i))"
proof (cases "length d = 1")
  case True
  with assms(2) have "i = 0" by simp
  with True show ?thesis
    by (simp add: interpolate_rate_def np_interp_def)
next
  case False
  with assms(2) have len: "2 \<le> length (map fst d)" by simp
  have i: "i < length (map fst d)" using assms(2) by simp
  have bs: "binary_search (map fst d ! i) (map fst d) = At i"
    using assms(1) i by (rule search_at_sample)
  have "np_interp (map fst d ! i) (map fst d) (map snd d) = Inr (map snd d ! i)"
    by (simp add: np_interp_long[OF len] bs)
  then show ?thesis
    using assms(2) by (simp add: interpolate_rate_def)
qed

theorem interpolate_rate_at_sample_witness:
  "sorted_wrt (<) (map fst scenario_df) \<and> (1::nat) < length scenario_df
   \<and> interpolate_rate scenario_df (1 / 2) = Inr (5 / 1000)"
proof -
  have h1: "sorted_wrt (<) (map fst scenario_df)" by (simp add: scenario_df_def)
  have h2: "(1::nat) < length scenario_df" by (simp add: scenario_df_def)
  from interpolate_rate_at_sample[OF h1 h2]
  have "interpolate_rate scenario_df (1 / 2) = Inr (5 / 1000)"
    by (simp add: scenario_df_def)
  with h1 h2 show ?thesis by blast
qed

section \<open>The PFR volume reads only the selected samples\<close>

text \<open>
  C9. \<open>pfr_volume\<close> depends only on the table samples whose X lies in
  \<open>[X_int, X_final]\<close>: two tables that agree on those samples, whatever they hold outside
  the range, give the same result for the same FA0, X_int and X_final.
\<close>

theorem pfr_volume_frame:
  "selected_samples d1 X_int X_final = selected_samples d2 X_int X_final \<Longrightarrow>
   pfr_volume d1 FA0 X_int X_final = pfr_volume d2 FA0 X_int X_final"
  by (simp add: pfr_volume_selected)

theorem pfr_volume_frame_witness:
  "selected_samples scenario_df (1 / 2) 1 = selected_samples padded_df (1 / 2) 1
   \<and> scenario_df \<noteq> padded_df
   \<and> pfr_volume scenario_df 1 (1 / 2) 1 = pfr_volume padded_df 1 (1 / 2) 1"
proof -
  have h: "selected_samples scenario_df (1 / 2) 1 = selected_samples padded_df (1 / 2) 1"
    by (simp add: selected_samples_def scenario_df_def padded_df_def)
  have ne: "scenario_df \<noteq> padded_df" by (simp add: scenario_df_def padded_df_def)
  from h ne pfr_volume_frame[OF h, of 1] show ?thesis by blast
qed

section \<open>Interpolated rates and the sampled rates\<close>




end
